theory Spec2Isabelle
  imports Main
begin

unbundle bit_operations_syntax

section \<open>JavaScript integer operators\<close>

text \<open>
  The source computes on JavaScript numbers that hold integers. They are modelled as
  \<^typ>\<open>int\<close>; the bitwise operators first convert their operands to signed 32-bit
  integers, and a shift uses its count modulo 32. Both are written out here.
\<close>

definition ToInt32 :: "int \<Rightarrow> int" where
  "ToInt32 x = (x + 2 ^ 31) mod 2 ^ 32 - 2 ^ 31"

text \<open>\<^verbatim>\<open>a << k\<close>\<close>

definition js_shl :: "int \<Rightarrow> int \<Rightarrow> int" where
  "js_shl a k = ToInt32 (ToInt32 a * 2 ^ nat (k mod 32))"

text \<open>\<^verbatim>\<open>a >> k\<close>\<close>

definition js_sar :: "int \<Rightarrow> int \<Rightarrow> int" where
  "js_sar a k = ToInt32 a div 2 ^ nat (k mod 32)"

text \<open>\<^verbatim>\<open>a & b\<close>\<close>

definition js_and :: "int \<Rightarrow> int \<Rightarrow> int" where
  "js_and a b = ToInt32 a AND ToInt32 b"

section \<open>Ring descriptors and the ring selector\<close>

text \<open>
  The three attributes of a \<^verbatim>\<open>FermatRing\<close> that the source file reads. The class itself
  (its constructor and its methods) is imported by the source file from another module.
\<close>

record FermatRing =
  principal_root_exponent :: int
  principal_root_order :: int
  bit_capacity :: int

text \<open>The only error the source file raises: \<^verbatim>\<open>"Failed to find ring for size " + bit_size\<close>.\<close>

datatype error = NoSuitableRing int

text \<open>The four tests of \<^verbatim>\<open>ring_for_size\<close>, each as the source computes it.\<close>

definition isSmaller :: "FermatRing \<Rightarrow> int \<Rightarrow> bool" where
  "isSmaller r bit_size = (bit_capacity r < bit_size)"

definition isEven :: "int \<Rightarrow> int \<Rightarrow> bool" where
  "isEven bit_size s = (js_and bit_size (js_shl 1 (s + 2) - 1) = 0)"

text \<open>
  \<^verbatim>\<open>Math.ceil(bit_size / r.principal_root_order)\<close> is the ceiling of the exact quotient
  when the order is not zero. A zero order makes the quotient \<^verbatim>\<open>Infinity\<close>, \<^verbatim>\<open>NaN\<close> or
  \<^verbatim>\<open>-Infinity\<close>, and only the last one passes the comparison.
\<close>

definition hasRoom :: "FermatRing \<Rightarrow> int \<Rightarrow> int \<Rightarrow> bool" where
  "hasRoom r bit_size s =
     (if principal_root_order r = 0 then bit_size < 0
      else bit_capacity r \<ge> (- ((- bit_size) div principal_root_order r)) * 2 + s + 1)"

definition canDoSqrt2 :: "int \<Rightarrow> int \<Rightarrow> bool" where
  "canDoSqrt2 s p = (s \<ge> 3 \<or> (s = 2 \<and> js_and p 0 = 0))"

text \<open>
  The body of the inner loop. \<open>mk\<close> is the constructor \<^verbatim>\<open>new FermatRing(_, _)\<close>;
  \<open>best\<close> is \<^verbatim>\<open>undefined\<close> (\<open>None\<close>) or the object \<^verbatim>\<open>{p, s, r}\<close>.
\<close>

definition accepts :: "(int \<Rightarrow> int \<Rightarrow> FermatRing) \<Rightarrow> int \<Rightarrow> int \<Rightarrow> int \<Rightarrow> bool" where
  "accepts mk bit_size s p =
     (let r = mk s (p - 1) in
      isSmaller r bit_size \<and> isEven bit_size s \<and> hasRoom r bit_size s \<and> canDoSqrt2 s p)"

definition isBetter :: "(int \<times> int \<times> FermatRing) option \<Rightarrow> FermatRing \<Rightarrow> bool" where
  "isBetter best r =
     (case best of None \<Rightarrow> True | Some (bp, bs, br) \<Rightarrow> bit_capacity br > bit_capacity r)"

definition try_candidate ::
  "(int \<Rightarrow> int \<Rightarrow> FermatRing) \<Rightarrow> int \<Rightarrow> int \<Rightarrow> (int \<times> int \<times> FermatRing) option \<Rightarrow> int
     \<Rightarrow> (int \<times> int \<times> FermatRing) option" where
  "try_candidate mk bit_size s best p =
     (let r = mk s (p - 1) in
      if isSmaller r bit_size \<and> isEven bit_size s \<and> hasRoom r bit_size s \<and> canDoSqrt2 s p
         \<and> isBetter best r
      then Some (p, s, r) else best)"

text \<open>\<^verbatim>\<open>for (let p = Math.max(2, s); p <= 4*s; p++)\<close>\<close>

definition p_loop ::
  "(int \<Rightarrow> int \<Rightarrow> FermatRing) \<Rightarrow> int \<Rightarrow> (int \<times> int \<times> FermatRing) option \<Rightarrow> int
     \<Rightarrow> (int \<times> int \<times> FermatRing) option" where
  "p_loop mk bit_size best s = foldl (try_candidate mk bit_size s) best [max 2 s .. 4 * s]"

text \<open>\<^verbatim>\<open>for (let s = m; s > 0; s--)\<close>\<close>

definition s_loop ::
  "(int \<Rightarrow> int \<Rightarrow> FermatRing) \<Rightarrow> int \<Rightarrow> int \<Rightarrow> (int \<times> int \<times> FermatRing) option" where
  "s_loop mk bit_size m = foldl (p_loop mk bit_size) None (rev [1 .. m])"

text \<open>
  \<^verbatim>\<open>ring_for_size\<close>. \<open>clg\<close> is the imported helper \<^verbatim>\<open>ceil_lg2\<close>.
\<close>

definition ring_for_size ::
  "(int \<Rightarrow> int) \<Rightarrow> (int \<Rightarrow> int \<Rightarrow> FermatRing) \<Rightarrow> int \<Rightarrow> error + FermatRing" where
  "ring_for_size clg mk bit_size =
     (let m = clg bit_size in
      case s_loop mk bit_size m of
        None \<Rightarrow> Inl (NoSuitableRing bit_size)
      | Some (p, s, r) \<Rightarrow> Inr r)"

subsection \<open>The sweep as one list\<close>

text \<open>
  The pairs \<open>(s, p)\<close> in the order in which the two loops visit them, and one visit.
  The lemmas below replay the loops over this list.
\<close>

definition sweep :: "int \<Rightarrow> (int \<times> int) list" where
  "sweep m = concat (map (\<lambda>s. map (Pair s) [max 2 s .. 4 * s]) (rev [1 .. m]))"

definition visit ::
  "(int \<Rightarrow> int \<Rightarrow> FermatRing) \<Rightarrow> int \<Rightarrow> (int \<times> int \<times> FermatRing) option \<Rightarrow> int \<times> int
     \<Rightarrow> (int \<times> int \<times> FermatRing) option" where
  "visit mk bit_size best c = try_candidate mk bit_size (fst c) best (snd c)"

lemma p_loop_visit:
  "p_loop mk bit_size best s = foldl (visit mk bit_size) best (map (Pair s) [max 2 s .. 4 * s])"
  unfolding p_loop_def visit_def by (simp add: foldl_map)

lemma s_loop_flat_aux:
  "foldl (p_loop mk bit_size) best ss =
   foldl (visit mk bit_size) best (concat (map (\<lambda>s. map (Pair s) [max 2 s .. 4 * s]) ss))"
  by (induction ss arbitrary: best) (simp_all add: p_loop_visit)

lemma s_loop_sweep: "s_loop mk bit_size m = foldl (visit mk bit_size) None (sweep m)"
  unfolding s_loop_def sweep_def by (rule s_loop_flat_aux)


lemma visit_cases:
  "visit mk bit_size best (s, p) =
     (if accepts mk bit_size s p \<and> isBetter best (mk s (p - 1)) then Some (p, s, mk s (p - 1)) else best)"
  unfolding visit_def try_candidate_def accepts_def by (simp add: Let_def)

definition chosen ::
  "(int \<Rightarrow> int \<Rightarrow> FermatRing) \<Rightarrow> int \<Rightarrow> (int \<times> int) list \<Rightarrow> (int \<times> int \<times> FermatRing) \<Rightarrow> bool" where
  "chosen mk bit_size cs b =
     (case b of (p, s, r) \<Rightarrow>
        r = mk s (p - 1) \<and> accepts mk bit_size s p \<and>
        (\<forall>(s', p') \<in> set cs. accepts mk bit_size s' p' \<longrightarrow> bit_capacity r \<le> bit_capacity (mk s' (p' - 1))) \<and>
        (\<exists>ys zs. cs = ys @ (s, p) # zs \<and>
           (\<forall>(s', p') \<in> set ys. accepts mk bit_size s' p' \<longrightarrow> bit_capacity r < bit_capacity (mk s' (p' - 1)))))"

lemma chosen_first:
  assumes "accepts mk bit_size s p"
    and "\<forall>(s', p') \<in> set cs. accepts mk bit_size s' p' \<longrightarrow>
           bit_capacity (mk s (p - 1)) < bit_capacity (mk s' (p' - 1))"
  shows "chosen mk bit_size (cs @ [(s, p)]) (p, s, mk s (p - 1))"
proof -
  have "\<forall>(s', p') \<in> set (cs @ [(s, p)]). accepts mk bit_size s' p' \<longrightarrow>
           bit_capacity (mk s (p - 1)) \<le> bit_capacity (mk s' (p' - 1))"
    using assms(2) by fastforce
  moreover have "\<exists>ys zs. cs @ [(s, p)] = ys @ (s, p) # zs \<and>
      (\<forall>(s', p') \<in> set ys. accepts mk bit_size s' p' \<longrightarrow>
           bit_capacity (mk s (p - 1)) < bit_capacity (mk s' (p' - 1)))"
    using assms(2) by blast
  ultimately show ?thesis unfolding chosen_def using assms(1) by simp
qed

lemma chosen_keep:
  assumes "chosen mk bit_size cs (bp, bs, br)"
    and "accepts mk bit_size s p \<longrightarrow> bit_capacity br \<le> bit_capacity (mk s (p - 1))"
  shows "chosen mk bit_size (cs @ [(s, p)]) (bp, bs, br)"
proof -
  from assms(1) have r: "br = mk bs (bp - 1)" and a: "accepts mk bit_size bs bp"
    and m: "\<forall>(s', p') \<in> set cs. accepts mk bit_size s' p' \<longrightarrow>
           bit_capacity br \<le> bit_capacity (mk s' (p' - 1))"
    unfolding chosen_def by auto
  from assms(1) obtain ys zs where
    yz: "cs = ys @ (bs, bp) # zs"
        "\<forall>(s', p') \<in> set ys. accepts mk bit_size s' p' \<longrightarrow>
           bit_capacity br < bit_capacity (mk s' (p' - 1))"
    unfolding chosen_def by auto
  have "cs @ [(s, p)] = ys @ (bs, bp) # (zs @ [(s, p)])" using yz(1) by simp
  with yz(2) have ex: "\<exists>ys zs. cs @ [(s, p)] = ys @ (bs, bp) # zs \<and>
      (\<forall>(s', p') \<in> set ys. accepts mk bit_size s' p' \<longrightarrow>
           bit_capacity br < bit_capacity (mk s' (p' - 1)))"
    by blast
  have "\<forall>(s', p') \<in> set (cs @ [(s, p)]). accepts mk bit_size s' p' \<longrightarrow>
           bit_capacity br \<le> bit_capacity (mk s' (p' - 1))"
    using m assms(2) by simp
  with r a ex show ?thesis unfolding chosen_def by simp
qed

lemma chosen_min:
  assumes "chosen mk bit_size cs (bp, bs, br)" and "(s, p) \<in> set cs" and "accepts mk bit_size s p"
  shows "bit_capacity br \<le> bit_capacity (mk s (p - 1))"
  using assms unfolding chosen_def by auto

lemma foldl_visit:
  "(case foldl (visit mk bit_size) None cs of
      None \<Rightarrow> \<forall>(s, p) \<in> set cs. \<not> accepts mk bit_size s p
    | Some b \<Rightarrow> chosen mk bit_size cs b)"
proof (induction cs rule: rev_induct)
  case Nil
  show ?case by simp
next
  case (snoc c cs)
  obtain s p where c: "c = (s, p)" by (cases c)
  let ?best = "foldl (visit mk bit_size) None cs"
  have step: "foldl (visit mk bit_size) None (cs @ [c]) = visit mk bit_size ?best (s, p)"
    using c by simp
  show ?case
  proof (cases ?best)
    case None
    with snoc have no: "\<forall>(s, p) \<in> set cs. \<not> accepts mk bit_size s p" by simp
    show ?thesis
    proof (cases "accepts mk bit_size s p")
      case True
      have "chosen mk bit_size (cs @ [(s, p)]) (p, s, mk s (p - 1))"
        using True no by (intro chosen_first) auto
      moreover have "visit mk bit_size ?best (s, p) = Some (p, s, mk s (p - 1))"
        using None True by (simp add: visit_cases isBetter_def)
      ultimately show ?thesis unfolding step using c by simp
    next
      case False
      have "visit mk bit_size ?best (s, p) = None"
        using None False by (simp add: visit_cases)
      then show ?thesis unfolding step using no False c by simp
    qed
  next
    case (Some b)
    obtain bp bs br where b: "b = (bp, bs, br)" by (cases b)
    from snoc Some b have ch: "chosen mk bit_size cs (bp, bs, br)" by simp
    show ?thesis
    proof (cases "accepts mk bit_size s p \<and> bit_capacity br > bit_capacity (mk s (p - 1))")
      case True
      have "\<forall>(s', p') \<in> set cs. accepts mk bit_size s' p' \<longrightarrow>
           bit_capacity (mk s (p - 1)) < bit_capacity (mk s' (p' - 1))"
      proof (clarify)
        fix s' p' assume "(s', p') \<in> set cs" "accepts mk bit_size s' p'"
        then have "bit_capacity br \<le> bit_capacity (mk s' (p' - 1))"
          using ch by (rule chosen_min [rotated])
        with True show "bit_capacity (mk s (p - 1)) < bit_capacity (mk s' (p' - 1))" by simp
      qed
      with True have "chosen mk bit_size (cs @ [(s, p)]) (p, s, mk s (p - 1))"
        by (intro chosen_first) simp_all
      moreover have "visit mk bit_size ?best (s, p) = Some (p, s, mk s (p - 1))"
        using Some b True by (simp add: visit_cases isBetter_def)
      ultimately show ?thesis unfolding step using c by simp
    next
      case False
      then have "accepts mk bit_size s p \<longrightarrow> bit_capacity br \<le> bit_capacity (mk s (p - 1))"
        by auto
      with ch have "chosen mk bit_size (cs @ [(s, p)]) (bp, bs, br)" by (rule chosen_keep)
      moreover have "visit mk bit_size ?best (s, p) = Some (bp, bs, br)"
        using Some b False by (auto simp add: visit_cases isBetter_def)
      ultimately show ?thesis unfolding step using c by simp
    qed
  qed
qed

subsection \<open>The 32-bit operators on small values\<close>

lemma ToInt32_id: "- (2 ^ 31) \<le> x \<Longrightarrow> x < 2 ^ 31 \<Longrightarrow> ToInt32 x = x"
  unfolding ToInt32_def by simp

lemma ToInt32_mod: "k \<le> 32 \<Longrightarrow> ToInt32 x mod 2 ^ k = x mod 2 ^ k"
proof -
  assume k: "k \<le> 32"
  have d: "(2::int) ^ k dvd 2 ^ 32" using k by (rule le_imp_power_dvd)
  have "ToInt32 x mod 2 ^ k = ((x + 2 ^ 31) mod 2 ^ 32 mod 2 ^ k - 2 ^ 31 mod 2 ^ k) mod 2 ^ k"
    unfolding ToInt32_def by (simp add: mod_diff_eq)
  also have "\<dots> = ((x + 2 ^ 31) mod 2 ^ k - 2 ^ 31 mod 2 ^ k) mod 2 ^ k"
    using d by (simp add: mod_mod_cancel)
  also have "\<dots> = x mod 2 ^ k" by (simp add: mod_diff_eq)
  finally show ?thesis .
qed

lemma js_and_mask: "k \<le> 31 \<Longrightarrow> js_and x (2 ^ k - 1) = x mod 2 ^ k"
proof -
  assume k: "k \<le> 31"
  have le: "(2::int) ^ k \<le> 2 ^ 31" using k by (intro power_increasing) simp_all
  have lo: "- (2 ^ 31) \<le> (2::int) ^ k - 1" by (rule order_trans [of _ 0]) simp_all
  have hi: "(2::int) ^ k - 1 < 2 ^ 31" using le by simp
  have "ToInt32 (2 ^ k - 1) = 2 ^ k - 1" using lo hi by (rule ToInt32_id)
  then have "js_and x (2 ^ k - 1) = ToInt32 x AND mask k"
    unfolding js_and_def by (simp add: mask_eq_exp_minus_1)
  also have "\<dots> = ToInt32 x mod 2 ^ k"
    by (simp add: take_bit_eq_mask [symmetric] take_bit_eq_mod)
  also have "\<dots> = x mod 2 ^ k" using k by (simp add: ToInt32_mod)
  finally show ?thesis .
qed

lemma js_shl_one: "0 \<le> k \<Longrightarrow> k \<le> 30 \<Longrightarrow> js_shl 1 k = 2 ^ nat k"
proof -
  assume k: "0 \<le> k" "k \<le> 30"
  have m: "k mod 32 = k" using k by simp
  have le: "(2::int) ^ nat k \<le> 2 ^ 30" using k by (intro power_increasing) simp_all
  have lo: "- (2 ^ 31) \<le> (2::int) ^ nat k" by (rule order_trans [of _ 0]) simp_all
  have hi: "(2::int) ^ nat k < 2 ^ 31" using le by simp
  have "ToInt32 (2 ^ nat k) = 2 ^ nat k" using lo hi by (rule ToInt32_id)
  moreover have "ToInt32 1 = 1" by (simp add: ToInt32_def)
  ultimately show ?thesis unfolding js_shl_def using m by simp
qed


lemma isEven_dvd_small:
  assumes "0 \<le> s + 2" "s + 2 \<le> 30"
  shows "isEven bit_size s \<longleftrightarrow> 2 ^ nat (s + 2) dvd bit_size"
proof -
  have "js_shl 1 (s + 2) = 2 ^ nat (s + 2)" using assms by (rule js_shl_one)
  moreover have "nat (s + 2) \<le> 31" using assms by simp
  ultimately have "js_and bit_size (js_shl 1 (s + 2) - 1) = bit_size mod 2 ^ nat (s + 2)"
    by (simp add: js_and_mask)
  then show ?thesis unfolding isEven_def by (simp add: dvd_eq_mod_eq_0)
qed


lemma js_and_zero: "js_and p 0 = 0"
  unfolding js_and_def ToInt32_def by simp

text \<open>
  For \<open>s = 30\<close> the shift count is \<open>32\<close>, which the operator takes modulo \<open>32\<close>: the mask
  is \<open>0\<close> and the test passes for every \<open>bit_size\<close>.
\<close>

lemma isEven_30: "isEven bit_size 30"
  unfolding isEven_def js_shl_def by (simp add: ToInt32_def js_and_zero)







subsection \<open>The ceiling of a quotient\<close>


subsection \<open>What the selector returns\<close>

lemma ring_for_size_Inr:
  assumes "ring_for_size clg mk bit_size = Inr r"
  shows "\<exists>s p. chosen mk bit_size (sweep (clg bit_size)) (p, s, r)"
proof -
  from assms obtain p s where "s_loop mk bit_size (clg bit_size) = Some (p, s, r)"
    unfolding ring_for_size_def by (auto simp: Let_def split: option.splits)
  then have "foldl (visit mk bit_size) None (sweep (clg bit_size)) = Some (p, s, r)"
    by (simp add: s_loop_sweep)
  with foldl_visit [where mk = mk and bit_size = bit_size and cs = "sweep (clg bit_size)"]
  show ?thesis by auto
qed


lemma ring_for_size_smaller:
  assumes "ring_for_size clg mk bit_size = Inr r"
  shows "bit_capacity r < bit_size"
proof -
  from ring_for_size_Inr [OF assms] obtain s p where "chosen mk bit_size (sweep (clg bit_size)) (p, s, r)"
    by blast
  then have "r = mk s (p - 1)" "accepts mk bit_size s p" unfolding chosen_def by simp_all
  then show ?thesis unfolding accepts_def isSmaller_def by (simp add: Let_def)
qed


section \<open>Collaborators\<close>

text \<open>
  Arbitrary-precision integers (\<^verbatim>\<open>BigInt\<close>) are modelled as \<^typ>\<open>int\<close>:
  \<^verbatim>\<open>BigInt.of\<close> is the identity, \<^verbatim>\<open>isNegative\<close> is \<open>_ < 0\<close>, \<^verbatim>\<open>negate\<close> is unary minus and
  \<^verbatim>\<open>minus\<close> is subtraction. Everything else that the source file imports is a field of
  the record below, so that the theorems hold for every implementation of it; the field
  \<open>bit_size_of\<close> is the method \<^verbatim>\<open>size()\<close> of a \<^verbatim>\<open>BigInt\<close>.
  A convolution gets the pointwise multiplier as a callback that may raise.
\<close>

record collab =
  ceil_lg2 :: "int \<Rightarrow> int"
  new_FermatRing :: "int \<Rightarrow> int \<Rightarrow> FermatRing"
  canonicalize :: "FermatRing \<Rightarrow> int \<Rightarrow> int"
  divisor :: "FermatRing \<Rightarrow> int"
  negacyclic_convolution ::
    "FermatRing \<Rightarrow> int list \<Rightarrow> int list \<Rightarrow> (int \<Rightarrow> int \<Rightarrow> error + int) \<Rightarrow> error + int list"
  multiply_integer_Karatsuba :: "int \<Rightarrow> int \<Rightarrow> int"
  bit_size_of :: "int \<Rightarrow> int"
  isNegativeOne :: "int \<Rightarrow> bool"
  splitIntoNPiecesOfSize :: "int \<Rightarrow> int \<Rightarrow> int \<Rightarrow> int list"
  shiftSum :: "int list \<Rightarrow> int \<Rightarrow> int"

text \<open>\<^verbatim>\<open>ring_for_size\<close> with the two collaborators it uses taken from the record.\<close>

definition ring_for :: "collab \<Rightarrow> int \<Rightarrow> error + FermatRing" where
  "ring_for E bit_size = ring_for_size (ceil_lg2 E) (new_FermatRing E) bit_size"

section \<open>The recursive multiplication\<close>

text \<open>The test in front of the base case of \<^verbatim>\<open>multiply_integer_SchonhageStrassen_ring\<close>.\<close>

definition is_base_case :: "FermatRing \<Rightarrow> bool" where
  "is_base_case ring =
     ((bit_capacity ring \<noteq> 16 \<and> bit_capacity ring < 32) \<or> bit_capacity ring = 40)"

text \<open>The carry step: \<^verbatim>\<open>piecesC.map(e => e.size() === inner_ring.bit_capacity ? e.minus(d) : e)\<close>.\<close>

definition carry_fix :: "collab \<Rightarrow> FermatRing \<Rightarrow> int list \<Rightarrow> int list" where
  "carry_fix E inner_ring piecesC =
     (let d = divisor E inner_ring in
      map (\<lambda>e. if bit_size_of E e = bit_capacity inner_ring then e - d else e) piecesC)"


text \<open>
  \<^verbatim>\<open>multiply_integer_SchonhageStrassen_ring\<close>. An exception of the selector, or one that
  comes out of the convolution, leaves the function as it is; no \<^verbatim>\<open>try\<close> is in the source.
  The recursive call is the callback \<^verbatim>\<open>inner_multiply\<close> given to the convolution.
\<close>

function multiply_integer_SchonhageStrassen_ring ::
  "collab \<Rightarrow> FermatRing \<Rightarrow> int \<Rightarrow> int \<Rightarrow> error + int" where
  "multiply_integer_SchonhageStrassen_ring E ring a0 b0 =
     (let a = canonicalize E ring a0;
          b = canonicalize E ring b0 in
      if is_base_case ring then Inr (canonicalize E ring (multiply_integer_Karatsuba E a b))
      else if isNegativeOne E a then Inr (canonicalize E ring (- b))
      else if isNegativeOne E b then Inr (canonicalize E ring (- a))
      else
        case ring_for E (bit_capacity ring) of
          Inl err \<Rightarrow> Inl err
        | Inr inner_ring \<Rightarrow>
            let piece_count = principal_root_order inner_ring;
                bits_per_piece = js_sar (bit_capacity ring) (principal_root_exponent inner_ring + 1);
                piecesA = splitIntoNPiecesOfSize E a piece_count bits_per_piece;
                piecesB = splitIntoNPiecesOfSize E b piece_count bits_per_piece;
                inner_multiply = (\<lambda>x y. multiply_integer_SchonhageStrassen_ring E inner_ring x y)
            in case negacyclic_convolution E inner_ring piecesA piecesB inner_multiply of
                 Inl err \<Rightarrow> Inl err
               | Inr piecesC \<Rightarrow>
                   let piecesD = carry_fix E inner_ring piecesC;
                       combined = shiftSum E piecesD bits_per_piece
                   in Inr (canonicalize E ring combined))"
  by pat_completeness auto
termination
proof (relation "measure (\<lambda>(E, ring, a, b). nat (bit_capacity ring))")
  show "wf (measure (\<lambda>(E, ring, a, b). nat (bit_capacity ring)))" by simp
next
  fix E :: collab and ring :: FermatRing and a0 b0 :: int and a b inner_ring piece_count bits_per_piece
    and piecesA piecesB :: "int list" and x y :: int
  assume nb: "\<not> is_base_case ring" and r: "ring_for E (bit_capacity ring) = Inr inner_ring"
  from r have "bit_capacity inner_ring < bit_capacity ring"
    unfolding ring_for_def by (rule ring_for_size_smaller)
  moreover from nb have "0 < bit_capacity ring" unfolding is_base_case_def by auto
  ultimately show "((E, inner_ring, x, y), (E, ring, a0, b0)) \<in> measure (\<lambda>(E, ring, a, b). nat (bit_capacity ring))"
    by simp
qed

declare multiply_integer_SchonhageStrassen_ring.simps [simp del]

text \<open>
  The rings of a recursive call: past the base case, the callback multiplies in the ring that
  the selector returns for the capacity of the current ring.
\<close>

definition self_call :: "collab \<Rightarrow> FermatRing \<Rightarrow> FermatRing \<Rightarrow> bool" where
  "self_call E ring inner_ring \<longleftrightarrow>
     \<not> is_base_case ring \<and> ring_for E (bit_capacity ring) = Inr inner_ring"

section \<open>The entry point\<close>


section \<open>The paths through the two functions\<close>

text \<open>One equation for each way out of \<^verbatim>\<open>multiply_integer_SchonhageStrassen_ring\<close>.\<close>

lemma ring_case_base:
  "is_base_case ring \<Longrightarrow>
   multiply_integer_SchonhageStrassen_ring E ring a b =
     Inr (canonicalize E ring
           (multiply_integer_Karatsuba E (canonicalize E ring a) (canonicalize E ring b)))"
  by (subst multiply_integer_SchonhageStrassen_ring.simps) (simp add: Let_def)

lemma ring_case_minus_one_left:
  "\<not> is_base_case ring \<Longrightarrow> isNegativeOne E (canonicalize E ring a) \<Longrightarrow>
   multiply_integer_SchonhageStrassen_ring E ring a b =
     Inr (canonicalize E ring (- canonicalize E ring b))"
  by (subst multiply_integer_SchonhageStrassen_ring.simps) (simp add: Let_def)

lemma ring_case_minus_one_right:
  "\<not> is_base_case ring \<Longrightarrow> \<not> isNegativeOne E (canonicalize E ring a) \<Longrightarrow>
   isNegativeOne E (canonicalize E ring b) \<Longrightarrow>
   multiply_integer_SchonhageStrassen_ring E ring a b =
     Inr (canonicalize E ring (- canonicalize E ring a))"
  by (subst multiply_integer_SchonhageStrassen_ring.simps) (simp add: Let_def)

lemma ring_case_no_ring:
  "\<not> is_base_case ring \<Longrightarrow> \<not> isNegativeOne E (canonicalize E ring a) \<Longrightarrow>
   \<not> isNegativeOne E (canonicalize E ring b) \<Longrightarrow>
   ring_for E (bit_capacity ring) = Inl e \<Longrightarrow>
   multiply_integer_SchonhageStrassen_ring E ring a b = Inl e"
  by (subst multiply_integer_SchonhageStrassen_ring.simps) (simp add: Let_def)

lemma ring_case_split:
  "\<not> is_base_case ring \<Longrightarrow> \<not> isNegativeOne E (canonicalize E ring a) \<Longrightarrow>
   \<not> isNegativeOne E (canonicalize E ring b) \<Longrightarrow>
   ring_for E (bit_capacity ring) = Inr inner_ring \<Longrightarrow>
   multiply_integer_SchonhageStrassen_ring E ring a b =
     (case negacyclic_convolution E inner_ring
             (splitIntoNPiecesOfSize E (canonicalize E ring a) (principal_root_order inner_ring)
                (js_sar (bit_capacity ring) (principal_root_exponent inner_ring + 1)))
             (splitIntoNPiecesOfSize E (canonicalize E ring b) (principal_root_order inner_ring)
                (js_sar (bit_capacity ring) (principal_root_exponent inner_ring + 1)))
             (multiply_integer_SchonhageStrassen_ring E inner_ring) of
        Inl err \<Rightarrow> Inl err
      | Inr piecesC \<Rightarrow>
          Inr (canonicalize E ring
                (shiftSum E (carry_fix E inner_ring piecesC)
                   (js_sar (bit_capacity ring) (principal_root_exponent inner_ring + 1)))))"
  by (subst multiply_integer_SchonhageStrassen_ring.simps) (simp add: Let_def split: sum.splits)



section \<open>A reference implementation of the collaborators\<close>

text \<open>
  The theorems below hold for every value of the record \<^typ>\<open>collab\<close>. To evaluate the
  functions on concrete inputs, the imported modules are given one implementation here.
\<close>

text \<open>
  Modelled from the spec: \<^verbatim>\<open>ceil_lg2\<close> of \<^verbatim>\<open>src/util/util.js\<close>, a "pure integer
  function", the \<open>ceil(log2(n))\<close> of the selector's description. It is \<open>0\<close> below \<open>2\<close>.
\<close>

function ceil_lg2_spec :: "int \<Rightarrow> int" where
  "ceil_lg2_spec n = (if n \<le> 1 then 0 else 1 + ceil_lg2_spec ((n + 1) div 2))"
  by pat_completeness auto
termination
  by (relation "measure nat") auto

declare ceil_lg2_spec.simps [simp del]

text \<open>
  Modelled from the spec: \<^verbatim>\<open>size()\<close> of \<^verbatim>\<open>src/util/BigInt.js\<close>, the "bit-length" of the
  magnitude.
\<close>

function bit_length :: "int \<Rightarrow> int" where
  "bit_length a = (if a = 0 then 0 else 1 + bit_length (\<bar>a\<bar> div 2))"
  by pat_completeness auto
termination
  by (relation "measure (\<lambda>a. nat \<bar>a\<bar>)") auto

declare bit_length.simps [simp del]

text \<open>
  The constructor of \<^verbatim>\<open>src/util/FermatRing.js\<close> is not in the source file, and the spec
  gives no formula for the three attributes of a ring. The theorems take the constructor as
  a parameter. The definition below is one value of that parameter, neither from the source
  file nor from the spec, so that rings can be built for evaluation: the ring of \<open>(s, p)\<close>
  has the exponent \<open>s\<close>, the order \<open>2^(s+1)\<close> and the capacity \<open>p * 2^s\<close>.
\<close>

definition FermatRing_sample :: "int \<Rightarrow> int \<Rightarrow> FermatRing" where
  "FermatRing_sample s p =
     \<lparr>principal_root_exponent = s,
      principal_root_order = 2 ^ nat (s + 1),
      bit_capacity = p * 2 ^ nat s\<rparr>"

text \<open>Modelled from the spec: \<^verbatim>\<open>divisor()\<close> of the ring, "2^bit_capacity + 1".\<close>

definition divisor_spec :: "FermatRing \<Rightarrow> int" where
  "divisor_spec r = 2 ^ nat (bit_capacity r) + 1"

text \<open>
  Modelled from the spec: \<^verbatim>\<open>canonicalize\<close> of the ring, "reducing an arbitrary integer into
  the ring's representative range", which is "[0, 2^bit_capacity]".
\<close>

definition canonicalize_spec :: "FermatRing \<Rightarrow> int \<Rightarrow> int" where
  "canonicalize_spec r x = x mod divisor_spec r"

text \<open>
  Modelled from the spec: \<^verbatim>\<open>splitIntoNPiecesOfSize\<close> and \<^verbatim>\<open>shiftSum\<close> of
  \<^verbatim>\<open>src/util/BigInt.js\<close>: "n pieces of bitsPerPiece bits each (ordered, least-significant
  piece first)", and "piece i contributes piece[i] << (i * bits_per_piece)".
\<close>

definition split_spec :: "int \<Rightarrow> int \<Rightarrow> int \<Rightarrow> int list" where
  "split_spec a n bits = map (\<lambda>i. (a div 2 ^ (i * nat bits)) mod 2 ^ nat bits) [0 ..< nat n]"

definition shiftSum_spec :: "int list \<Rightarrow> int \<Rightarrow> int" where
  "shiftSum_spec pieces bits = foldr (\<lambda>x acc. x + acc * 2 ^ nat bits) pieces 0"

text \<open>
  Modelled from the spec: \<^verbatim>\<open>negacyclic_convolution\<close> of \<^verbatim>\<open>src/util/FermatRing.js\<close>, "the
  schoolbook product of the two pieces-as-polynomials reduced modulo x^N+1", with every
  product of two pieces made by the callback and the sums reduced into the ring. An error of
  the callback ends the convolution.
\<close>

fun sum_results :: "(error + int) list \<Rightarrow> error + int" where
  "sum_results [] = Inr 0"
| "sum_results (t # ts) =
     (case t of
        Inl e \<Rightarrow> Inl e
      | Inr v \<Rightarrow> (case sum_results ts of Inl e \<Rightarrow> Inl e | Inr w \<Rightarrow> Inr (v + w)))"

fun all_results :: "(error + int) list \<Rightarrow> error + int list" where
  "all_results [] = Inr []"
| "all_results (t # ts) =
     (case t of
        Inl e \<Rightarrow> Inl e
      | Inr v \<Rightarrow> (case all_results ts of Inl e \<Rightarrow> Inl e | Inr vs \<Rightarrow> Inr (v # vs)))"

definition convolution_spec ::
  "FermatRing \<Rightarrow> int list \<Rightarrow> int list \<Rightarrow> (int \<Rightarrow> int \<Rightarrow> error + int) \<Rightarrow> error + int list" where
  "convolution_spec r as bs mul =
     (let n = length as in
      all_results (map (\<lambda>k.
        map_sum id (canonicalize_spec r)
          (sum_results (map (\<lambda>i.
             if i \<le> k then mul (as ! i) (bs ! (k - i))
             else map_sum id uminus (mul (as ! i) (bs ! (n + k - i)))) [0 ..< n]))) [0 ..< n]))"

text \<open>
  Modelled from the spec: the base-case multiplier of
  \<^verbatim>\<open>src/integer_multiplication/Karatsuba.js\<close> returns the product, and \<^verbatim>\<open>isNegativeOne\<close> of
  \<^verbatim>\<open>src/util/BigInt.js\<close> is the "test-equal-to-negative-one".
\<close>

definition spec_collab :: collab where
  "spec_collab =
     \<lparr>ceil_lg2 = ceil_lg2_spec,
      new_FermatRing = FermatRing_sample,
      canonicalize = canonicalize_spec,
      divisor = divisor_spec,
      negacyclic_convolution = convolution_spec,
      multiply_integer_Karatsuba = (*),
      bit_size_of = bit_length,
      isNegativeOne = (\<lambda>a. a = - 1),
      splitIntoNPiecesOfSize = split_spec,
      shiftSum = shiftSum_spec\<rparr>"

text \<open>
  A second implementation of \<^verbatim>\<open>canonicalize\<close> and of the convolution, with the canonical
  values of the source's comment on line 45: \<open>-1\<close> and \<open>0\<close> to \<open>2^bit_capacity - 1\<close>.
\<close>

definition canonicalize_centred :: "FermatRing \<Rightarrow> int \<Rightarrow> int" where
  "canonicalize_centred r x = (x + 1) mod divisor_spec r - 1"

definition convolution_centred ::
  "FermatRing \<Rightarrow> int list \<Rightarrow> int list \<Rightarrow> (int \<Rightarrow> int \<Rightarrow> error + int) \<Rightarrow> error + int list" where
  "convolution_centred r as bs mul =
     (let n = length as in
      all_results (map (\<lambda>k.
        map_sum id (canonicalize_centred r)
          (sum_results (map (\<lambda>i.
             if i \<le> k then mul (as ! i) (bs ! (k - i))
             else map_sum id uminus (mul (as ! i) (bs ! (n + k - i)))) [0 ..< n]))) [0 ..< n]))"

definition centred_collab :: collab where
  "centred_collab =
     spec_collab\<lparr>canonicalize := canonicalize_centred,
                 negacyclic_convolution := convolution_centred\<rparr>"

section \<open>The contracts of one split\<close>

text \<open>
  What the imported operations have to deliver on one pass through the split path, so that
  the product can be stated there. Each definition is a contract of the spec, on the values
  of one call.
\<close>


text \<open>
  Modelled from the spec: the coefficients of the negacyclic convolution that
  \<^verbatim>\<open>negacyclic_convolution\<close> of \<^verbatim>\<open>src/util/FermatRing.js\<close> represents, "the schoolbook
  product of the two pieces-as-polynomials reduced modulo x^N+1".
\<close>

definition negacyclic :: "int list \<Rightarrow> int list \<Rightarrow> nat \<Rightarrow> int" where
  "negacyclic as bs k =
     sum_list (map (\<lambda>i. if i \<le> k then as ! i * bs ! (k - i)
                         else - (as ! i * bs ! (length as + k - i))) [0 ..< length as])"


text \<open>
  The signed values that the carry step of line 66 recovers from their canonical value: it
  subtracts the divisor from exactly the values of \<open>n\<close> bits.
\<close>

definition fits :: "int \<Rightarrow> int \<Rightarrow> bool" where
  "fits n c \<longleftrightarrow> - (2 ^ nat (n - 1)) - 1 \<le> c \<and> c \<le> 2 ^ nat (n - 1) - 1"


subsection \<open>The negacyclic convolution recombines to the product\<close>











section \<open>The selector's tests\<close>

text \<open>
  Claim C8. The test \<^verbatim>\<open>canDoSqrt2\<close> of the selector is
  \<^verbatim>\<open>s >= 3 || (s === 2 && (p & 0) === 0)\<close>. The parity test \<^verbatim>\<open>(p & 0) === 0\<close> is true for
  every \<open>p\<close>, so a candidate passes exactly when \<open>s \<ge> 3\<close> or \<open>s = 2\<close>.
\<close>

theorem canDoSqrt2_parity_always_true:
  "js_and p 0 = 0 \<and> (canDoSqrt2 s p \<longleftrightarrow> 3 \<le> s \<or> s = 2)"
  unfolding canDoSqrt2_def by (simp add: js_and_zero)

text \<open>
  Claim C10. The test \<^verbatim>\<open>(bit_size & ((1 << (s+2)) - 1)) == 0\<close> works on 32-bit integers.
  For \<open>0 < bit_size < 2^31\<close> and a shift \<open>s + 2\<close> between \<open>0\<close> and \<open>30\<close> it succeeds
  exactly when \<open>2^(s+2)\<close> divides \<open>bit_size\<close>.
\<close>

theorem isEven_iff_divisible:
  assumes "0 < bit_size" and "bit_size < 2 ^ 31" and "0 \<le> s + 2" and "s + 2 \<le> 30"
  shows "isEven bit_size s \<longleftrightarrow> 2 ^ nat (s + 2) dvd bit_size"
  using assms(3,4) by (rule isEven_dvd_small)

theorem isEven_iff_divisible_witness:
  "isEven 48 2 \<and> \<not> isEven 56 2"
  using isEven_iff_divisible [of 48 2] isEven_iff_divisible [of 56 2] by simp

section \<open>The ring selector\<close>




section \<open>Termination of the recursion\<close>

text \<open>
  Claim C5. A recursive call of \<^verbatim>\<open>multiply_integer_SchonhageStrassen_ring\<close> happens only
  past the base case and in the ring that the selector returns, whose capacity is strictly
  below the capacity of the current ring. The relation between the ring of a call and the
  ring of the call that made it is well-founded: no chain of nested calls is infinite.
\<close>

theorem recursion_shrinks_and_terminates:
  "(self_call E ring inner_ring \<longrightarrow> bit_capacity inner_ring < bit_capacity ring)
   \<and> wf {(inner_ring, ring). self_call E ring inner_ring}"
proof
  show "self_call E ring inner_ring \<longrightarrow> bit_capacity inner_ring < bit_capacity ring"
    unfolding self_call_def ring_for_def by (auto dest: ring_for_size_smaller)
next
  have "{(inner_ring, ring). self_call E ring inner_ring} \<subseteq> measure (\<lambda>r. nat (bit_capacity r))"
  proof (clarify)
    fix inner ring
    assume sc: "self_call E ring inner"
    then have "bit_capacity inner < bit_capacity ring"
      unfolding self_call_def ring_for_def by (auto dest: ring_for_size_smaller)
    moreover from sc have "0 < bit_capacity ring"
      unfolding self_call_def is_base_case_def by auto
    ultimately show "(inner, ring) \<in> measure (\<lambda>r. nat (bit_capacity r))" by simp
  qed
  then show "wf {(inner_ring, ring). self_call E ring inner_ring}"
    by (rule wf_subset [OF wf_measure])
qed

theorem recursion_shrinks_and_terminates_witness:
  "self_call spec_collab (FermatRing_sample 5 1) (FermatRing_sample 2 3)
   \<and> bit_capacity (FermatRing_sample 2 3) < bit_capacity (FermatRing_sample 5 1)"
proof -
  have "self_call spec_collab (FermatRing_sample 5 1) (FermatRing_sample 2 3)"
    unfolding self_call_def by code_simp
  with recursion_shrinks_and_terminates [of spec_collab "FermatRing_sample 5 1" "FermatRing_sample 2 3"]
  show ?thesis by blast
qed

section \<open>The error of the selector\<close>



section \<open>Results are canonical\<close>

text \<open>
  Claim C9. If \<^verbatim>\<open>canonicalize\<close> of the ring is idempotent, every value returned by
  \<^verbatim>\<open>multiply_integer_SchonhageStrassen_ring(a, b, ring)\<close> is a fixed point of it: each of
  the return paths ends with \<^verbatim>\<open>ring.canonicalize\<close>.
\<close>

theorem ring_result_is_canonical:
  assumes idem: "\<forall>x. canonicalize E ring (canonicalize E ring x) = canonicalize E ring x"
    and res: "multiply_integer_SchonhageStrassen_ring E ring a b = Inr v"
  shows "canonicalize E ring v = v"
proof (cases "is_base_case ring")
  case True
  with res idem show ?thesis by (auto simp: ring_case_base)
next
  case nb: False
  show ?thesis
  proof (cases "isNegativeOne E (canonicalize E ring a)")
    case True
    with nb res idem show ?thesis by (auto simp: ring_case_minus_one_left)
  next
    case na: False
    show ?thesis
    proof (cases "isNegativeOne E (canonicalize E ring b)")
      case True
      with nb na res idem show ?thesis by (auto simp: ring_case_minus_one_right)
    next
      case nbn: False
      show ?thesis
      proof (cases "ring_for E (bit_capacity ring)")
        case (Inl e)
        with nb na nbn res show ?thesis by (simp add: ring_case_no_ring)
      next
        case (Inr inner_ring)
        with nb na nbn res idem show ?thesis
          by (auto simp: ring_case_split split: sum.splits)
      qed
    qed
  qed
qed

theorem ring_result_is_canonical_witness:
  "canonicalize spec_collab (FermatRing_sample 3 1) 15 = 15"
proof -
  have i: "\<forall>x. canonicalize spec_collab (FermatRing_sample 3 1)
      (canonicalize spec_collab (FermatRing_sample 3 1) x) = canonicalize spec_collab (FermatRing_sample 3 1) x"
    by (simp add: spec_collab_def canonicalize_spec_def)
  have r: "multiply_integer_SchonhageStrassen_ring spec_collab (FermatRing_sample 3 1) 3 5 = Inr 15"
    by code_simp
  from ring_result_is_canonical [OF i r] show ?thesis .
qed

section \<open>The product in a ring\<close>




text \<open>
  The selector does not by itself give the range of the carry step. With the sample
  constructor, which is not the repository's, the ring of capacity 96 gets an inner ring of
  capacity 16 and 16 pieces of 6 bits; for the operand \<open>2^96 - 1\<close> squared the last
  negacyclic coefficient is \<open>16 * 63 * 63\<close>, which has 16 bits.
\<close>

lemma carry_range_not_implied:
  "ring_for centred_collab 96 = Inr (FermatRing_sample 3 2)
   \<and> \<not> fits (bit_capacity (FermatRing_sample 3 2))
         (negacyclic (split_spec (2 ^ 96 - 1) 16 6) (split_spec (2 ^ 96 - 1) 16 6) 15)"
  by code_simp

section \<open>The split\<close>




end
